theory Spec2Isabelle
  imports Complex_Main
begin

section \<open>Numbers: Python floats\<close>

text \<open>
  Every number of \<^verbatim>\<open>sim.py\<close> is a double: the entries of the numpy arrays, \<^verbatim>\<open>dt\<close>,
  \<^verbatim>\<open>t_max\<close>, \<^verbatim>\<open>box_size\<close> and the crossing fraction. A double is modelled by its value:
  a real, or one of the three non-finite values. Every arithmetic operation rounds its
  exact result to the nearest binary64 number, ties to even, with gradual underflow and
  with overflow to infinity (\<open>round64\<close>), and follows IEEE 754 on the non-finite values
  (numpy does not raise on them). A value \<open>Fin r\<close> whose \<open>r\<close> is no binary64 number does not
  occur in the program. The sign of zero is not modelled.
\<close>

datatype float64 = Fin real | PInf | NInf | NaN

fun is_finite :: "float64 \<Rightarrow> bool" where
  "is_finite (Fin r) = True"
| "is_finite _ = False"

text \<open>
  The binary exponent of a positive real \<open>a\<close>, kept within the exponents of binary64:
  the \<open>e\<close> with \<open>2\<^sup>e \<le> a < 2\<^sup>e\<^sup>+\<^sup>1\<close>, but at least \<open>-1022\<close> (below are the subnormal
  numbers) and at most \<open>1023\<close>.
\<close>

function expo_up :: "real \<Rightarrow> int \<Rightarrow> int" where
  "expo_up a e = (if 2 \<le> a \<and> e < 1023 then expo_up (a / 2) (e + 1) else e)"
  by pat_completeness auto
termination
  by (relation "measure (\<lambda>(a, e). nat (1023 - e))") auto

function expo_down :: "real \<Rightarrow> int \<Rightarrow> int" where
  "expo_down a e = (if a < 1 \<and> - 1022 < e then expo_down (a * 2) (e - 1) else e)"
  by pat_completeness auto
termination
  by (relation "measure (\<lambda>(a, e). nat (e + 1022))") auto

declare expo_up.simps [simp del] expo_down.simps [simp del]

definition expo :: "real \<Rightarrow> int" where
  "expo a = (if 1 \<le> a then expo_up a 0 else expo_down a 0)"

definition pow2 :: "int \<Rightarrow> real" where
  "pow2 e = (if 0 \<le> e then 2 ^ nat e else 1 / 2 ^ nat (- e))"

text \<open>The integer nearest to \<open>m\<close>; of two equally near integers the even one.\<close>

definition nearest_even :: "real \<Rightarrow> int \<Rightarrow> int" where
  "nearest_even m f =
     (if m - of_int f < 1 / 2 then f
      else if 1 / 2 < m - of_int f then f + 1
      else if even f then f else f + 1)"

definition round_even :: "real \<Rightarrow> int" where
  "round_even m = nearest_even m \<lfloor>m\<rfloor>"

text \<open>
  A positive real rounded to 53 significant bits at the exponent \<open>e\<close>: the nearest
  multiple of \<open>2\<^sup>e\<^sup>-\<^sup>5\<^sup>2\<close>.
\<close>

definition round_at :: "int \<Rightarrow> real \<Rightarrow> real" where
  "round_at e a = of_int (round_even (a * pow2 (52 - e))) * pow2 (e - 52)"

definition round_pos :: "real \<Rightarrow> real" where
  "round_pos a = round_at (expo a) a"

text \<open>A rounded magnitude with its sign; from \<open>2\<^sup>1\<^sup>0\<^sup>2\<^sup>4\<close> on it is an infinity.\<close>

definition overflow :: "bool \<Rightarrow> real \<Rightarrow> float64" where
  "overflow positive r =
     (if 2 ^ 1024 \<le> r then (if positive then PInf else NInf)
      else Fin (if positive then r else - r))"

text \<open>The double nearest to a real: what a binary64 operation returns for its exact result.\<close>

definition round64 :: "real \<Rightarrow> float64" where
  "round64 x =
     (if x = 0 then Fin 0
      else if 0 < x then overflow True (round_pos x)
      else overflow False (round_pos (- x)))"

instantiation float64 :: "{uminus, plus, minus, times, inverse, ord}"
begin

fun uminus_float64 :: "float64 \<Rightarrow> float64" where
  "uminus_float64 (Fin r) = Fin (- r)"
| "uminus_float64 PInf = NInf"
| "uminus_float64 NInf = PInf"
| "uminus_float64 NaN = NaN"

fun plus_float64 :: "float64 \<Rightarrow> float64 \<Rightarrow> float64" where
  "plus_float64 (Fin a) (Fin b) = round64 (a + b)"
| "plus_float64 NaN _ = NaN"
| "plus_float64 _ NaN = NaN"
| "plus_float64 PInf NInf = NaN"
| "plus_float64 NInf PInf = NaN"
| "plus_float64 PInf _ = PInf"
| "plus_float64 _ PInf = PInf"
| "plus_float64 NInf _ = NInf"
| "plus_float64 _ NInf = NInf"

definition minus_float64 :: "float64 \<Rightarrow> float64 \<Rightarrow> float64" where
  "minus_float64 a b = a + (- b)"

fun times_float64 :: "float64 \<Rightarrow> float64 \<Rightarrow> float64" where
  "times_float64 (Fin a) (Fin b) = round64 (a * b)"
| "times_float64 NaN _ = NaN"
| "times_float64 _ NaN = NaN"
| "times_float64 PInf (Fin b) = (if b = 0 then NaN else if 0 < b then PInf else NInf)"
| "times_float64 NInf (Fin b) = (if b = 0 then NaN else if 0 < b then NInf else PInf)"
| "times_float64 (Fin a) PInf = (if a = 0 then NaN else if 0 < a then PInf else NInf)"
| "times_float64 (Fin a) NInf = (if a = 0 then NaN else if 0 < a then NInf else PInf)"
| "times_float64 PInf PInf = PInf"
| "times_float64 NInf NInf = PInf"
| "times_float64 PInf NInf = NInf"
| "times_float64 NInf PInf = NInf"

fun divide_float64 :: "float64 \<Rightarrow> float64 \<Rightarrow> float64" where
  "divide_float64 (Fin a) (Fin b) =
     (if b \<noteq> 0 then round64 (a / b)
      else if 0 < a then PInf else if a < 0 then NInf else NaN)"
| "divide_float64 NaN _ = NaN"
| "divide_float64 _ NaN = NaN"
| "divide_float64 (Fin a) _ = Fin 0"
| "divide_float64 PInf (Fin b) = (if 0 \<le> b then PInf else NInf)"
| "divide_float64 NInf (Fin b) = (if 0 \<le> b then NInf else PInf)"
| "divide_float64 _ _ = NaN"

fun inverse_float64 :: "float64 \<Rightarrow> float64" where
  "inverse_float64 (Fin b) = (if b \<noteq> 0 then round64 (1 / b) else PInf)"
| "inverse_float64 NaN = NaN"
| "inverse_float64 _ = Fin 0"

fun less_eq_float64 :: "float64 \<Rightarrow> float64 \<Rightarrow> bool" where
  "less_eq_float64 (Fin a) (Fin b) = (a \<le> b)"
| "less_eq_float64 NaN _ = False"
| "less_eq_float64 _ NaN = False"
| "less_eq_float64 NInf _ = True"
| "less_eq_float64 _ PInf = True"
| "less_eq_float64 _ _ = False"

fun less_float64 :: "float64 \<Rightarrow> float64 \<Rightarrow> bool" where
  "less_float64 (Fin a) (Fin b) = (a < b)"
| "less_float64 NaN _ = False"
| "less_float64 _ NaN = False"
| "less_float64 PInf _ = False"
| "less_float64 _ NInf = False"
| "less_float64 _ _ = True"

instance ..

end

section \<open>Particle states and ensembles\<close>

text \<open>
  A row \<^verbatim>\<open>[x, y, vx, vy]\<close> of the \<^verbatim>\<open>(N, 4)\<close> array is a \<open>state\<close>; the array is the list
  of its rows. \<open>+\<close> on states is numpy's elementwise addition, \<open>smul h k\<close> is the product
  of a scalar and a row.
\<close>

datatype state = State (sx: float64) (sy: float64) (svx: float64) (svy: float64)

instantiation state :: plus
begin

fun plus_state :: "state \<Rightarrow> state \<Rightarrow> state" where
  "plus_state (State a b c d) (State a' b' c' d') = State (a + a') (b + b') (c + c') (d + d')"

instance ..

end

fun smul :: "float64 \<Rightarrow> state \<Rightarrow> state" where
  "smul h (State a b c d) = State (h * a) (h * b) (h * c) (h * d)"

type_synonym ensemble = "state list"

text \<open>The derivative evaluator \<^verbatim>\<open>f(state, context, index)\<close> handed to \<^verbatim>\<open>rk4_step\<close>.\<close>

type_synonym deriv = "state \<Rightarrow> ensemble \<Rightarrow> nat \<Rightarrow> state"

datatype py_error = IndexError | ZeroDivisionError | ValueError | OverflowError

section \<open>The collaborators of \<^verbatim>\<open>sim.py\<close>\<close>

text \<open>
  \<^verbatim>\<open>sim.py\<close> imports \<^verbatim>\<open>box\<close>, \<^verbatim>\<open>rk4\<close> and \<^verbatim>\<open>eqnmotion\<close>; their files are not part of
  the sources at hand. Each is modelled from the specification, sections 4.1 to 4.3.
\<close>

datatype wall = WLeft | WRight | WBottom | WTop

text \<open>\<^verbatim>\<open>box.box(0.0, box_size, 0.0, box_size)\<close>: the rectangle of the four wall coordinates.\<close>

record box =
  xmin :: float64
  xmax :: float64
  ymin :: float64
  ymax :: float64

definition simbox :: "float64 \<Rightarrow> box" where
  "simbox box_size = \<lparr>xmin = Fin 0, xmax = box_size, ymin = Fin 0, ymax = box_size\<rparr>"

text \<open>
  Modelled from the spec: the crossing fraction of the straight segment from coordinate
  \<open>a0\<close> to coordinate \<open>a1\<close> against a wall at coordinate \<open>c\<close> (helper of the missing
  \<^verbatim>\<open>box.left_box\<close>). A segment parallel to the wall divides by zero, which gives a
  non-finite fraction.
\<close>

definition crossing_fraction :: "float64 \<Rightarrow> float64 \<Rightarrow> float64 \<Rightarrow> float64" where
  "crossing_fraction c a0 a1 = (c - a0) / (a1 - a0)"

definition in_range :: "float64 \<Rightarrow> bool" where
  "in_range lam \<longleftrightarrow> Fin 0 < lam \<and> lam \<le> Fin 1"

text \<open>
  Modelled from the spec: the entry with the smallest fraction; of two entries with equal
  fractions the one earlier in the list wins (helper of the missing \<^verbatim>\<open>box.left_box\<close>).
\<close>

fun earliest :: "(wall \<times> float64) list \<Rightarrow> (wall \<times> float64) option" where
  "earliest [] = None"
| "earliest (c # cs) =
     (case earliest cs of
        None \<Rightarrow> Some c
      | Some m \<Rightarrow> if snd m < snd c then Some m else Some c)"

text \<open>
  Modelled from the spec: \<^verbatim>\<open>box.left_box(s_old, s_new)\<close>, missing from the sources
  (spec 4.3, \<^verbatim>\<open>detectCrossing\<close>): the crossing fraction of the segment between the old and
  the new position against each of the four walls; the wall with the smallest fraction in
  \<open>(0, 1]\<close>, none if no fraction lies there; equal fractions are resolved by the fixed
  order left, right, bottom, top. The source unpacks a pair \<^verbatim>\<open>(where, lambda_inters)\<close>
  whose first component is \<^verbatim>\<open>None\<close> when nothing is crossed; the model returns an
  optional pair.
\<close>

definition left_box :: "box \<Rightarrow> state \<Rightarrow> state \<Rightarrow> (wall \<times> float64) option" where
  "left_box b s_old s_new =
     earliest (filter (\<lambda>c. in_range (snd c))
       [(WLeft, crossing_fraction (xmin b) (sx s_old) (sx s_new)),
        (WRight, crossing_fraction (xmax b) (sx s_old) (sx s_new)),
        (WBottom, crossing_fraction (ymin b) (sy s_old) (sy s_new)),
        (WTop, crossing_fraction (ymax b) (sy s_old) (sy s_new))])"

text \<open>
  Modelled from the spec: \<^verbatim>\<open>box.box.reflect(s, where)\<close>, missing from the sources
  (spec 4.3): the velocity component normal to the wall is negated, everything else is
  kept.
\<close>

fun reflect :: "state \<Rightarrow> wall \<Rightarrow> state" where
  "reflect (State a b c d) WLeft = State a b (- c) d"
| "reflect (State a b c d) WRight = State a b (- c) d"
| "reflect (State a b c d) WBottom = State a b c (- d)"
| "reflect (State a b c d) WTop = State a b c (- d)"

text \<open>
  Modelled from the spec: \<^verbatim>\<open>rk4.rk4_step(f, s, particles, idx, h)\<close>, missing from the
  sources (spec 4.1): the classical four-stage increment, every stage evaluated against
  the same ensemble \<open>particles\<close>.
\<close>

definition rk4_step :: "deriv \<Rightarrow> state \<Rightarrow> ensemble \<Rightarrow> nat \<Rightarrow> float64 \<Rightarrow> state" where
  "rk4_step f s particles idx h =
     (let k1 = f s particles idx;
          k2 = f (s + smul (h / Fin 2) k1) particles idx;
          k3 = f (s + smul (h / Fin 2) k2) particles idx;
          k4 = f (s + smul h k3) particles idx
      in smul (h / Fin 6) (k1 + smul (Fin 2) k2 + smul (Fin 2) k3 + k4))"

text \<open>
  Modelled from the spec: \<^verbatim>\<open>eqnmotion.eqnmotion(s, particles, idx)\<close>, missing from the
  sources (spec 4.2): the velocity passes through, the acceleration is the sum of a
  pairwise interaction law over all particles other than \<open>idx\<close>. The law is a parameter,
  as in the spec.
\<close>

type_synonym law = "state \<Rightarrow> state \<Rightarrow> float64 \<times> float64"

definition acceleration :: "law \<Rightarrow> state \<Rightarrow> ensemble \<Rightarrow> nat \<Rightarrow> float64 \<times> float64" where
  "acceleration l s particles idx =
     foldl (\<lambda>(ax, ay) j.
              if j = idx then (ax, ay)
              else (ax + fst (l s (particles ! j)), ay + snd (l s (particles ! j))))
           (Fin 0, Fin 0) [0..<length particles]"

definition eqnmotion :: "law \<Rightarrow> deriv" where
  "eqnmotion l s particles idx =
     State (svx s) (svy s) (fst (acceleration l s particles idx))
                           (snd (acceleration l s particles idx))"

text \<open>
  Modelled from the spec: the zero-force field of the scenarios of spec 8, a law for the
  parameter of \<open>eqnmotion\<close>.
\<close>

definition no_force :: law where
  "no_force s other = (Fin 0, Fin 0)"

section \<open>\<^verbatim>\<open>compute_particle\<close>\<close>

text \<open>
  The worker of \<^verbatim>\<open>sim.py\<close>, lines 37 to 56. The module constants \<^verbatim>\<open>dt\<close> and \<^verbatim>\<open>box_size\<close>
  and the derivative \<^verbatim>\<open>eqnmotion.eqnmotion\<close> are parameters. This embedding gives the value
  that the call returns when the collaborators write nothing, as the spec describes them;
  the same lines with the array \<^verbatim>\<open>particles\<close> as a store are \<open>compute_particle_store\<close>
  below. \<^verbatim>\<open>particles[idx, :]\<close> raises \<^verbatim>\<open>IndexError\<close> for a row that does not exist.
\<close>

definition compute_particle ::
  "deriv \<Rightarrow> float64 \<Rightarrow> float64 \<Rightarrow> nat \<Rightarrow> ensemble \<Rightarrow> py_error + (nat \<times> state)" where
  "compute_particle f dt box_size idx particles =
     (if idx < length particles then
        let s_old = particles ! idx;
            s_new = s_old + rk4_step f s_old particles idx dt;
            s_new =
              (case left_box (simbox box_size) s_old s_new of
                 None \<Rightarrow> s_new
               | Some (where, lambda_inters) \<Rightarrow>
                   let s_inters = s_old + rk4_step f s_old particles idx (lambda_inters * dt);
                       s_inters = reflect s_inters where
                   in s_inters
                        + rk4_step f s_inters particles idx ((Fin 1 - lambda_inters) * dt))
        in Inr (idx, s_new)
      else Inl IndexError)"

section \<open>The main program\<close>

text \<open>
  \<^verbatim>\<open>pool.starmap(compute_particle, args)\<close>: the results in the order of the arguments;
  an exception in a task is raised by the call.
\<close>

fun starmap ::
  "(nat \<Rightarrow> ensemble \<Rightarrow> py_error + 'r) \<Rightarrow> (nat \<times> ensemble) list \<Rightarrow> py_error + 'r list" where
  "starmap g [] = Inr []"
| "starmap g ((i, p) # args) =
     (case g i p of
        Inl e \<Rightarrow> Inl e
      | Inr r \<Rightarrow> (case starmap g args of Inl e \<Rightarrow> Inl e | Inr rs \<Rightarrow> Inr (r # rs)))"

text \<open>Lines 82 and 83: \<^verbatim>\<open>for idx, s_new in results: particles_s_new[idx, :] = s_new\<close>.\<close>

fun unpack :: "(nat \<times> state) list \<Rightarrow> ensemble \<Rightarrow> py_error + ensemble" where
  "unpack [] particles_s_new = Inr particles_s_new"
| "unpack ((idx, s_new) # results) particles_s_new =
     (if idx < length particles_s_new
      then unpack results (particles_s_new[idx := s_new])
      else Inl IndexError)"

text \<open>
  One pass of the loop body up to the swap (lines 78 to 86): the pair of the buffers after
  the swap, the committed ensemble first.
\<close>

definition step ::
  "deriv \<Rightarrow> float64 \<Rightarrow> float64 \<Rightarrow> nat \<Rightarrow> ensemble \<Rightarrow> ensemble \<Rightarrow> py_error + (ensemble \<times> ensemble)" where
  "step f dt box_size N particles_s_old particles_s_new =
     (let args = map (\<lambda>i. (i, particles_s_old)) [0..<N]
      in case starmap (compute_particle f dt box_size) args of
           Inl e \<Rightarrow> Inl e
         | Inr results \<Rightarrow>
             (case unpack results particles_s_new of
                Inl e \<Rightarrow> Inl e
              | Inr written \<Rightarrow> Inr (written, particles_s_old)))"

text \<open>
  The time-stepping loop (lines 76 to 95). \<open>emitted\<close> is the sequence of the calls
  \<^verbatim>\<open>output(f, t, particles_s_old)\<close> so far. In \<^verbatim>\<open>t = current_step * dt\<close> the step counter
  is converted to a double and multiplied by \<^verbatim>\<open>dt\<close>.
\<close>

function main_loop ::
  "deriv \<Rightarrow> float64 \<Rightarrow> float64 \<Rightarrow> nat \<Rightarrow> int \<Rightarrow> nat \<Rightarrow> ensemble \<Rightarrow> ensemble
     \<Rightarrow> (float64 \<times> ensemble) list \<Rightarrow> py_error + (float64 \<times> ensemble) list" where
  "main_loop f dt box_size N total_steps current_step particles_s_old particles_s_new emitted =
     (if int current_step < total_steps then
        (case step f dt box_size N particles_s_old particles_s_new of
           Inl e \<Rightarrow> Inl e
         | Inr (old', new') \<Rightarrow>
             main_loop f dt box_size N total_steps (current_step + 1) old' new'
               (emitted @ [(round64 (real (current_step + 1)) * dt, old')]))
      else Inr emitted)"
  by pat_completeness auto
termination
  by (relation "measure (\<lambda>(f, dt, box_size, N, total_steps, current_step, rest).
                  nat (total_steps - int current_step))") auto

text \<open>
  Line 61: \<^verbatim>\<open>total_steps = int(np.ceil(t_max / dt))\<close>. The quotient is the rounded quotient
  of two doubles; Python raises on a zero divisor; \<^verbatim>\<open>np.ceil\<close> of a finite double is an
  integer, and \<^verbatim>\<open>int\<close> raises on an infinity and on a NaN.
\<close>

definition total_steps :: "float64 \<Rightarrow> float64 \<Rightarrow> py_error + int" where
  "total_steps t_max dt =
     (if dt = Fin 0 then Inl ZeroDivisionError
      else case t_max / dt of
             Fin q \<Rightarrow> Inr \<lceil>q\<rceil>
           | NaN \<Rightarrow> Inl ValueError
           | _ \<Rightarrow> Inl OverflowError)"

text \<open>
  The body under \<^verbatim>\<open>if __name__ == '__main__'\<close>: the initial ensemble is emitted at
  \<^verbatim>\<open>t = 0.0\<close>, then the loop runs. The two buffers are parameters.
\<close>

definition main ::
  "deriv \<Rightarrow> float64 \<Rightarrow> float64 \<Rightarrow> float64 \<Rightarrow> nat \<Rightarrow> ensemble \<Rightarrow> ensemble
     \<Rightarrow> py_error + (float64 \<times> ensemble) list" where
  "main f dt t_max box_size N particles_s_old particles_s_new =
     (case total_steps t_max dt of
        Inl e \<Rightarrow> Inl e
      | Inr steps \<Rightarrow>
          main_loop f dt box_size N steps 0 particles_s_old particles_s_new
            [(Fin 0, particles_s_old)])"

text \<open>
  Lines 25 to 35: the rows of the ensemble are drawn one by one (\<open>draw i\<close> stands for the
  four random numbers of row \<open>i\<close>), the second buffer is \<^verbatim>\<open>np.zeros_like\<close> of the first.
\<close>

definition init_particles :: "nat \<Rightarrow> (nat \<Rightarrow> state) \<Rightarrow> ensemble" where
  "init_particles N draw = map draw [0..<N]"

definition zeros_like :: "ensemble \<Rightarrow> ensemble" where
  "zeros_like particles = replicate (length particles) (State (Fin 0) (Fin 0) (Fin 0) (Fin 0))"

definition simulation ::
  "deriv \<Rightarrow> float64 \<Rightarrow> float64 \<Rightarrow> float64 \<Rightarrow> nat \<Rightarrow> (nat \<Rightarrow> state)
     \<Rightarrow> py_error + (float64 \<times> ensemble) list" where
  "simulation f dt t_max box_size N draw =
     main f dt t_max box_size N (init_particles N draw) (zeros_like (init_particles N draw))"

section \<open>Predicates used in the statements\<close>

text \<open>A wall is vertical when its normal is the x axis.\<close>

definition vertical :: "wall \<Rightarrow> bool" where
  "vertical w \<longleftrightarrow> w = WLeft \<or> w = WRight"

text \<open>The position of a state lies in the closed square \<open>[0, box_size]\<^sup>2\<close>.\<close>

definition in_box :: "float64 \<Rightarrow> state \<Rightarrow> bool" where
  "in_box box_size s \<longleftrightarrow>
     Fin 0 \<le> sx s \<and> sx s \<le> box_size \<and> Fin 0 \<le> sy s \<and> sy s \<le> box_size"

definition finite_state :: "state \<Rightarrow> bool" where
  "finite_state s \<longleftrightarrow> is_finite (sx s) \<and> is_finite (sy s) \<and> is_finite (svx s) \<and> is_finite (svy s)"


text \<open>
  The state that task \<open>i\<close> returns for the ensemble \<open>particles\<close> (meaningful for a row
  that exists), and the ensemble a step commits: row \<open>i\<close> is the state of task \<open>i\<close>.
\<close>

definition result_state :: "deriv \<Rightarrow> float64 \<Rightarrow> float64 \<Rightarrow> ensemble \<Rightarrow> nat \<Rightarrow> state" where
  "result_state f dt box_size particles i = snd (projr (compute_particle f dt box_size i particles))"

definition committed :: "deriv \<Rightarrow> float64 \<Rightarrow> float64 \<Rightarrow> nat \<Rightarrow> ensemble \<Rightarrow> ensemble" where
  "committed f dt box_size N particles = map (result_state f dt box_size particles) [0..<N]"

section \<open>The worker on the shared array\<close>

text \<open>
  \<^verbatim>\<open>compute_particle\<close> once more, line by line, with the array \<^verbatim>\<open>particles\<close> as a store
  that every call receives and hands back, so that a write into it by the worker or by
  a collaborator shows. An operand of a call is a view of a row of \<^verbatim>\<open>particles\<close>
  (\<^verbatim>\<open>s_old = particles[idx, :]\<close> is one, and is read from the store whenever it is used)
  or an array of its own (\<^verbatim>\<open>s_old + ...\<close> allocates one). The three collaborators are
  parameters: each returns its result and the store as it leaves it. In
  \<^verbatim>\<open>s_old + rk4_step(...)\<close> the call is made before the view is read for the sum.
\<close>

datatype operand = View nat | Fresh state

fun fetch :: "ensemble \<Rightarrow> operand \<Rightarrow> state" where
  "fetch particles (View i) = particles ! i"
| "fetch particles (Fresh s) = s"

type_synonym rk4_call = "operand \<Rightarrow> nat \<Rightarrow> float64 \<Rightarrow> ensemble \<Rightarrow> state \<times> ensemble"

type_synonym left_box_call =
  "operand \<Rightarrow> operand \<Rightarrow> ensemble \<Rightarrow> (wall \<times> float64) option \<times> ensemble"

type_synonym reflect_call = "operand \<Rightarrow> wall \<Rightarrow> ensemble \<Rightarrow> state \<times> ensemble"

definition compute_particle_store ::
  "rk4_call \<Rightarrow> left_box_call \<Rightarrow> reflect_call \<Rightarrow> float64 \<Rightarrow> nat \<Rightarrow> ensemble
     \<Rightarrow> py_error + ((nat \<times> state) \<times> ensemble)" where
  "compute_particle_store rk4 lbox rfl dt idx particles =
     (if idx < length particles then
        let s_old = View idx;
            (inc, particles) = rk4 s_old idx dt particles;
            s_new = fetch particles s_old + inc;
            (crossing, particles) = lbox s_old (Fresh s_new) particles
        in case crossing of
             None \<Rightarrow> Inr ((idx, s_new), particles)
           | Some (where, lambda_inters) \<Rightarrow>
               let (inc, particles) = rk4 s_old idx (lambda_inters * dt) particles;
                   s_inters = fetch particles s_old + inc;
                   (s_inters, particles) = rfl (Fresh s_inters) where particles;
                   (inc, particles) =
                      rk4 (Fresh s_inters) idx ((Fin 1 - lambda_inters) * dt) particles;
                   s_new = s_inters + inc
               in Inr ((idx, s_new), particles)
      else Inl IndexError)"

text \<open>
  Modelled from the spec: the three collaborators as spec 4.1 and 4.3 describe them, calls
  that compute a result from their operands and write nothing.
\<close>

definition rk4_pure :: "deriv \<Rightarrow> rk4_call" where
  "rk4_pure f s idx h particles = (rk4_step f (fetch particles s) particles idx h, particles)"

definition left_box_pure :: "float64 \<Rightarrow> left_box_call" where
  "left_box_pure box_size s_old s_new particles =
     (left_box (simbox box_size) (fetch particles s_old) (fetch particles s_new), particles)"

definition reflect_pure :: reflect_call where
  "reflect_pure s where particles = (reflect (fetch particles s) where, particles)"

section \<open>Rounding\<close>

text \<open>
  The exponent search finds the binade of its argument; rounding is monotone, exact on
  the powers of two and overflows from \<open>2\<^sup>1\<^sup>0\<^sup>2\<^sup>4\<close> on.
\<close>

lemma pow2_powi: "pow2 e = 2 powi e"
  by (simp add: pow2_def power_int_def field_simps)

lemma pow2_pos [simp]: "0 < pow2 e"
  by (simp add: pow2_powi)

lemma pow2_add: "pow2 (a + b) = pow2 a * pow2 b"
  by (simp add: pow2_powi power_int_add)

lemma pow2_0 [simp]: "pow2 0 = 1"
  by (simp add: pow2_def)

lemma pow2_1 [simp]: "pow2 1 = 2"
  by (simp add: pow2_def)

lemma pow2_Suc: "pow2 (e + 1) = 2 * pow2 e"
  by (simp add: pow2_add)

lemma pow2_pred: "pow2 (e - 1) = pow2 e / 2"
  using pow2_add [of "e - 1" 1] by simp

lemma pow2_mono: "a \<le> b \<Longrightarrow> pow2 a \<le> pow2 b"
  by (simp add: pow2_powi power_int_increasing)

lemma pow2_nat: "pow2 (int n) = 2 ^ n"
  by (simp add: pow2_def)

lemma expo_up_spec:
  "1 \<le> a \<Longrightarrow> e \<le> 1023 \<Longrightarrow>
     e \<le> expo_up a e \<and> expo_up a e \<le> 1023
     \<and> pow2 (expo_up a e - e) \<le> a
     \<and> (a < pow2 (expo_up a e - e + 1) \<or> expo_up a e = 1023)"
proof (induction a e rule: expo_up.induct)
  case (1 a e)
  show ?case
  proof (cases "2 \<le> a \<and> e < 1023")
    case True
    then have eq: "expo_up a e = expo_up (a / 2) (e + 1)"
      by (subst expo_up.simps) simp
    from True 1 have ih: "e + 1 \<le> expo_up (a / 2) (e + 1) \<and> expo_up (a / 2) (e + 1) \<le> 1023
       \<and> pow2 (expo_up (a / 2) (e + 1) - (e + 1)) \<le> a / 2
       \<and> (a / 2 < pow2 (expo_up (a / 2) (e + 1) - (e + 1) + 1)
            \<or> expo_up (a / 2) (e + 1) = 1023)"
      by simp
    let ?r = "expo_up (a / 2) (e + 1)"
    have p1: "pow2 (?r - e) = 2 * pow2 (?r - (e + 1))"
      using pow2_Suc [of "?r - (e + 1)"] by (simp add: algebra_simps)
    have p2: "pow2 (?r - e + 1) = 2 * pow2 (?r - (e + 1) + 1)"
      using pow2_Suc [of "?r - (e + 1) + 1"] by (simp add: algebra_simps)
    from ih show ?thesis unfolding eq p1 p2 by auto
  next
    case False
    then have eq: "expo_up a e = e"
      by (subst expo_up.simps) (simp only: False if_False)
    from False 1(2,3) show ?thesis unfolding eq by auto
  qed
qed

lemma expo_down_spec:
  "0 < a \<Longrightarrow> a < 2 \<Longrightarrow> - 1022 \<le> e \<Longrightarrow>
     expo_down a e \<le> e \<and> - 1022 \<le> expo_down a e
     \<and> a < pow2 (expo_down a e - e + 1)
     \<and> (pow2 (expo_down a e - e) \<le> a \<or> expo_down a e = - 1022)"
proof (induction a e rule: expo_down.induct)
  case (1 a e)
  show ?case
  proof (cases "a < 1 \<and> - 1022 < e")
    case True
    then have eq: "expo_down a e = expo_down (a * 2) (e - 1)"
      by (subst expo_down.simps) simp
    let ?r = "expo_down (a * 2) (e - 1)"
    from True 1 have ih: "?r \<le> e - 1 \<and> - 1022 \<le> ?r
       \<and> a * 2 < pow2 (?r - (e - 1) + 1)
       \<and> (pow2 (?r - (e - 1)) \<le> a * 2 \<or> ?r = - 1022)"
      by simp
    have p1: "pow2 (?r - (e - 1)) = 2 * pow2 (?r - e)"
      using pow2_Suc [of "?r - e"] by (simp add: algebra_simps)
    have p2: "pow2 (?r - (e - 1) + 1) = 2 * pow2 (?r - e + 1)"
      using pow2_Suc [of "?r - e + 1"] by (simp add: algebra_simps)
    from ih show ?thesis unfolding eq p1 p2 by auto
  next
    case False
    then have eq: "expo_down a e = e"
      by (subst expo_down.simps) (simp only: False if_False)
    from False 1(2,3,4) show ?thesis unfolding eq by auto
  qed
qed

lemma expo_bounds:
  assumes "0 < a"
  shows "- 1022 \<le> expo a" and "expo a \<le> 1023"
    and "pow2 (expo a) \<le> a \<or> expo a = - 1022"
    and "a < pow2 (expo a + 1) \<or> expo a = 1023"
proof -
  have "- 1022 \<le> expo a \<and> expo a \<le> 1023
      \<and> (pow2 (expo a) \<le> a \<or> expo a = - 1022)
      \<and> (a < pow2 (expo a + 1) \<or> expo a = 1023)"
  proof (cases "1 \<le> a")
    case True
    with expo_up_spec [of a 0] show ?thesis by (simp add: expo_def)
  next
    case False
    with assms expo_down_spec [of a 0] show ?thesis by (simp add: expo_def)
  qed
  then show "- 1022 \<le> expo a" and "expo a \<le> 1023"
    and "pow2 (expo a) \<le> a \<or> expo a = - 1022"
    and "a < pow2 (expo a + 1) \<or> expo a = 1023"
    by simp_all
qed


lemma expo_unique:
  assumes "- 1022 \<le> k" and "k \<le> 1023" and "pow2 k \<le> a" and "a < pow2 (k + 1)"
  shows "expo a = k"
proof -
  have a0: "0 < a" using assms(3) pow2_pos [of k] by linarith
  have "\<not> expo a < k"
  proof
    assume lt: "expo a < k"
    with assms(2) have "expo a \<noteq> 1023" by linarith
    with expo_bounds(4) [OF a0] have "a < pow2 (expo a + 1)" by simp
    moreover from lt have "pow2 (expo a + 1) \<le> pow2 k" by (intro pow2_mono) simp
    ultimately show False using assms(3) by linarith
  qed
  moreover have "\<not> k < expo a"
  proof
    assume lt: "k < expo a"
    with assms(1) have "expo a \<noteq> - 1022" by linarith
    with expo_bounds(3) [OF a0] have "pow2 (expo a) \<le> a" by simp
    moreover from lt have "pow2 (k + 1) \<le> pow2 (expo a)" by (intro pow2_mono) simp
    ultimately show False using assms(4) by linarith
  qed
  ultimately show ?thesis by linarith
qed

lemma round_even_int [simp]: "round_even (of_int n) = n"
  by (simp add: round_even_def nearest_even_def)

lemma round_even_floor: "\<lfloor>m\<rfloor> \<le> round_even m \<and> round_even m \<le> \<lfloor>m\<rfloor> + 1"
  by (simp add: round_even_def nearest_even_def)

lemma round_even_mono:
  assumes "m \<le> m'"
  shows "round_even m \<le> round_even m'"
proof (cases "\<lfloor>m\<rfloor> < \<lfloor>m'\<rfloor>")
  case True
  with round_even_floor [of m] round_even_floor [of m'] show ?thesis by linarith
next
  case False
  with floor_mono [OF assms] have eq: "\<lfloor>m'\<rfloor> = \<lfloor>m\<rfloor>" by linarith
  have d: "m - of_int \<lfloor>m\<rfloor> \<le> m' - of_int \<lfloor>m\<rfloor>" using assms by simp
  show ?thesis
    unfolding round_even_def nearest_even_def eq using d
    by (auto split: if_splits)
qed

lemma round_pos_at: "round_pos a = round_at (expo a) a"
  by (simp add: round_pos_def)





lemma round_pos_pow2:
  assumes "- 1022 \<le> k" and "k \<le> 1023"
  shows "round_pos (pow2 k) = pow2 k"
proof -
  have "pow2 k < pow2 (k + 1)" using pow2_pos [of k] by (simp add: pow2_Suc)
  with assms have e: "expo (pow2 k) = k" by (intro expo_unique) simp_all
  have "pow2 k * pow2 (52 - k) = of_int (2 ^ 52)"
    using pow2_add [of k "52 - k"] by (simp add: pow2_def)
  then have "round_at k (pow2 k) = of_int (2 ^ 52) * pow2 (k - 52)"
    unfolding round_at_def by (simp only: round_even_int)
  also have "\<dots> = pow2 52 * pow2 (k - 52)" by (simp add: pow2_def)
  also have "\<dots> = pow2 k" using pow2_add [of 52 "k - 52"] by simp
  finally show ?thesis by (simp add: round_pos_at e)
qed



lemma round64_pos:
  assumes "0 < r" and "round_pos r < 2 ^ 1024"
  shows "round64 r = Fin (round_pos r)"
  using assms by (simp add: round64_def overflow_def)


lemma pow2_1024: "pow2 1024 = 2 ^ 1024"
  by (simp add: pow2_def)

lemma round64_overflow:
  assumes "2 ^ 1024 \<le> r"
  shows "round64 r = PInf"
proof -
  have r0: "0 < r" using assms by (simp add: less_le_trans [of 0 "2 ^ 1024"])
  have p: "pow2 1023 \<le> r"
    using assms pow2_mono [of 1023 1024] by (simp add: pow2_1024)
  have "expo r = 1023"
  proof (rule ccontr)
    assume "expo r \<noteq> 1023"
    with expo_bounds(2,4) [OF r0] have lt: "expo r < 1023" and "r < pow2 (expo r + 1)"
      by simp_all
    moreover from lt have "pow2 (expo r + 1) \<le> pow2 1023" by (intro pow2_mono) simp
    ultimately show False using p by linarith
  qed
  moreover have "pow2 (1023 + 1) \<le> round_at 1023 r"
  proof -
    have "pow2 53 \<le> r * pow2 (52 - 1023)"
      using assms pow2_add [of 1024 "52 - 1023"] pow2_pos [of "52 - 1023"]
        mult_right_mono [of "pow2 1024" r "pow2 (52 - 1023)"]
      by (simp add: pow2_1024)
    then have "of_int (2 ^ 53) \<le> r * pow2 (52 - 1023)" by (simp add: pow2_def)
    from round_even_mono [OF this] round_even_int [of "2 ^ 53"]
    have "2 ^ 53 \<le> round_even (r * pow2 (52 - 1023))" by simp
    then have "(2::real) ^ 53 \<le> of_int (round_even (r * pow2 (52 - 1023)))"
      by (metis of_int_le_iff of_int_numeral of_int_power)
    then have "pow2 53 * pow2 (1023 - 52) \<le> round_at 1023 r"
      unfolding round_at_def by (simp add: pow2_def mult_right_mono)
    moreover have "pow2 53 * pow2 (1023 - 52) = pow2 (1023 + 1)"
      using pow2_add [of 53 "1023 - 52"] by simp
    ultimately show ?thesis by simp
  qed
  ultimately have "2 ^ 1024 \<le> round_pos r"
    by (simp add: round_pos_at pow2_1024)
  with r0 show ?thesis by (simp add: round64_def overflow_def)
qed

lemma round64_pow2:
  assumes "- 1022 \<le> k" and "k \<le> 1023"
  shows "round64 (pow2 k) = Fin (pow2 k)"
proof -
  have "2 * pow2 k \<le> pow2 1024"
    using assms pow2_mono [of "k + 1" 1024] by (simp add: pow2_Suc)
  with pow2_pos [of k] have "pow2 k < pow2 1024" by linarith
  then show ?thesis
    using round64_pos [OF pow2_pos, of k] round_pos_pow2 [OF assms]
    by (simp add: pow2_1024)
qed

section \<open>Basic facts\<close>

text \<open>
  Evaluation of the arithmetic at given numbers: the definitions of rounding, and the
  worker without force.
\<close>

lemmas float_eval = round64_def overflow_def round_pos_def round_at_def expo_def expo_up.simps
  expo_down.simps pow2_def round_even_def nearest_even_def

lemma round64_0 [simp]: "round64 0 = Fin 0"
  by (simp add: round64_def)

lemma Fin_minus [simp]: "Fin a - Fin b = round64 (a - b)"
  by (simp add: minus_float64_def)

lemma PInf_minus [simp]: "PInf - Fin a = PInf"
  by (simp add: minus_float64_def)

lemma foldl_no_force:
  "foldl (\<lambda>(ax, ay) j. if j = idx then (ax, ay)
            else (ax + fst (no_force s (particles ! j)), ay + snd (no_force s (particles ! j))))
         (Fin 0, Fin 0) js = (Fin 0, Fin 0)"
  by (induction js) (simp_all add: no_force_def)

lemma eqnmotion_no_force:
  "eqnmotion no_force (State a b c d) particles idx = State c d (Fin 0) (Fin 0)"
  by (simp add: eqnmotion_def acceleration_def foldl_no_force)

lemmas run_defs = eqnmotion_no_force left_box_def simbox_def crossing_fraction_def in_range_def

section \<open>The scheduler and the loop\<close>

lemma compute_particle_result:
  "i < length particles \<Longrightarrow>
     compute_particle f dt box_size i particles = Inr (i, result_state f dt box_size particles i)"
  by (simp add: result_state_def compute_particle_def Let_def)

lemma starmap_all_ok:
  "(\<forall>i\<in>set js. g i p = Inr (h i)) \<Longrightarrow> starmap g (map (\<lambda>i. (i, p)) js) = Inr (map h js)"
  by (induction js) simp_all

lemma starmap_compute_particle:
  assumes "\<forall>i\<in>set js. i < length particles"
  shows "starmap (compute_particle f dt box_size) (map (\<lambda>i. (i, particles)) js)
           = Inr (map (\<lambda>i. (i, result_state f dt box_size particles i)) js)"
  using assms by (intro starmap_all_ok) (simp add: compute_particle_result)

lemma unpack_writes:
  "\<forall>i\<in>set js. i < length buf \<Longrightarrow>
     \<exists>new. unpack (map (\<lambda>i. (i, S i)) js) buf = Inr new \<and> length new = length buf
       \<and> (\<forall>j<length buf. new ! j = (if j \<in> set js then S j else buf ! j))"
proof (induction js arbitrary: buf)
  case Nil
  then show ?case by simp
next
  case (Cons i js)
  have i: "i < length buf" using Cons.prems by simp
  have "\<forall>k\<in>set js. k < length (buf[i := S i])" using Cons.prems by simp
  from Cons.IH [OF this] obtain new where
    new: "unpack (map (\<lambda>i. (i, S i)) js) (buf[i := S i]) = Inr new"
      "length new = length buf"
      "\<forall>j<length buf. new ! j = (if j \<in> set js then S j else buf[i := S i] ! j)"
    by auto
  have "\<forall>j<length buf. new ! j = (if j \<in> set (i # js) then S j else buf ! j)"
    using new(3) i by (auto simp: nth_list_update)
  with new(1,2) i show ?case by simp
qed

lemma unpack_all:
  assumes "set js = {0..<length buf}"
  shows "unpack (map (\<lambda>i. (i, S i)) js) buf = Inr (map S [0..<length buf])"
proof -
  have "\<forall>i\<in>set js. i < length buf" using assms by simp
  from unpack_writes [OF this, of S] obtain new where
    new: "unpack (map (\<lambda>i. (i, S i)) js) buf = Inr new" "length new = length buf"
      "\<forall>j<length buf. new ! j = (if j \<in> set js then S j else buf ! j)"
    by blast
  have "new = map S [0..<length buf]"
    using new(2,3) assms by (intro nth_equalityI) simp_all
  with new(1) show ?thesis by simp
qed

lemma step_commits:
  assumes "length particles_s_old = N" "length particles_s_new = N"
  shows "step f dt box_size N particles_s_old particles_s_new
           = Inr (committed f dt box_size N particles_s_old, particles_s_old)"
proof -
  have "starmap (compute_particle f dt box_size) (map (\<lambda>i. (i, particles_s_old)) [0..<N])
          = Inr (map (\<lambda>i. (i, result_state f dt box_size particles_s_old i)) [0..<N])"
    using assms by (intro starmap_compute_particle) simp
  moreover have "unpack (map (\<lambda>i. (i, result_state f dt box_size particles_s_old i)) [0..<N])
                   particles_s_new
                 = Inr (committed f dt box_size N particles_s_old)"
    using unpack_all [of "[0..<N]" particles_s_new] assms by (simp add: committed_def)
  ultimately show ?thesis by (simp add: step_def committed_def)
qed

lemma length_committed [simp]: "length (committed f dt box_size N particles) = N"
  by (simp add: committed_def)

lemma length_funpow_committed:
  "length particles = N \<Longrightarrow> length ((committed f dt box_size N ^^ k) particles) = N"
  by (cases k) simp_all

lemma main_loop_run:
  assumes "length particles_s_old = N" and "length particles_s_new = N"
    and "n = nat (steps - int current_step)"
  shows "main_loop f dt box_size N steps current_step particles_s_old particles_s_new emitted
           = Inr (emitted
                  @ map (\<lambda>k. (round64 (real (current_step + k)) * dt,
                                (committed f dt box_size N ^^ k) particles_s_old))
                      [1..<Suc n])"
  using assms
proof (induction n arbitrary: current_step particles_s_old particles_s_new emitted)
  case 0
  then have "\<not> int current_step < steps" by simp
  then show ?case by simp
next
  case (Suc n)
  let ?C = "committed f dt box_size N"
  have lt: "int current_step < steps" using Suc.prems(3) by linarith
  have st: "step f dt box_size N particles_s_old particles_s_new
              = Inr (?C particles_s_old, particles_s_old)"
    using Suc.prems(1,2) by (rule step_commits)
  have n: "n = nat (steps - int (current_step + 1))" using Suc.prems(3) by linarith
  have ih: "main_loop f dt box_size N steps (current_step + 1) (?C particles_s_old)
              particles_s_old
              (emitted @ [(round64 (real (current_step + 1)) * dt, ?C particles_s_old)])
            = Inr ((emitted @ [(round64 (real (current_step + 1)) * dt, ?C particles_s_old)])
                   @ map (\<lambda>k. (round64 (real (current_step + 1 + k)) * dt,
                                 (?C ^^ k) (?C particles_s_old)))
                       [1..<Suc n])"
    using Suc.IH [OF _ Suc.prems(1) n] by simp
  have shift: "[Suc 0..<Suc (Suc n)] = Suc 0 # map Suc [Suc 0..<Suc n]"
    by (simp add: upt_conv_Cons map_Suc_upt del: upt_Suc)
  have "main_loop f dt box_size N steps current_step particles_s_old particles_s_new emitted
          = main_loop f dt box_size N steps (current_step + 1) (?C particles_s_old)
              particles_s_old
              (emitted @ [(round64 (real (current_step + 1)) * dt, ?C particles_s_old)])"
    using lt st by (subst main_loop.simps) simp
  also note ih
  finally show ?case
    by (simp add: shift comp_def funpow_swap1 add.commute add.left_commute
          del: upt_Suc main_loop.simps)
qed

lemma main_run:
  assumes "length particles_s_old = N" and "length particles_s_new = N"
    and "total_steps t_max dt = Inr steps"
  shows "main f dt t_max box_size N particles_s_old particles_s_new
           = Inr ((Fin 0, particles_s_old)
                  # map (\<lambda>k. (round64 (real k) * dt,
                                (committed f dt box_size N ^^ k) particles_s_old))
                      [1..<Suc (nat steps)])"
  using main_loop_run [OF assms(1,2), of "nat steps" steps 0 f dt box_size
                         "[(Fin 0, particles_s_old)]"] assms(3)
  by (simp add: main_def del: upt_Suc main_loop.simps)

lemma upt_0_2: "[0..<2] = [0, Suc 0]"
  by (simp add: eval_nat_numeral)

lemma main_one_step:
  assumes "length particles_s_old = N" and "length particles_s_new = N"
  shows "main f (Fin 1) (Fin 1) box_size N particles_s_old particles_s_new
           = Inr [(Fin 0, particles_s_old), (Fin 1, committed f (Fin 1) box_size N particles_s_old)]"
proof -
  have ts: "total_steps (Fin 1) (Fin 1) = Inr 1"
    by (simp add: total_steps_def float_eval)
  have t: "round64 1 * Fin 1 = Fin 1"
    by (simp add: float_eval)
  show ?thesis unfolding main_run [OF assms ts] by (simp add: t)
qed

lemma run_rows:
  assumes "length particles_s_old = N" and "length particles_s_new = N"
    and "total_steps t_max dt = Inr steps"
  shows "\<exists>emitted. main f dt t_max box_size N particles_s_old particles_s_new = Inr emitted
           \<and> length emitted = nat steps + 1
           \<and> (\<forall>k\<le>nat steps. snd (emitted ! k)
                  = (committed f dt box_size N ^^ k) particles_s_old)"
proof -
  let ?C = "committed f dt box_size N"
  let ?E = "(Fin 0, particles_s_old)
              # map (\<lambda>k. (round64 (real k) * dt, (?C ^^ k) particles_s_old))
                  [1..<Suc (nat steps)]"
  have "\<forall>k\<le>nat steps. snd (?E ! k) = (?C ^^ k) particles_s_old"
  proof (intro allI impI)
    fix k assume k: "k \<le> nat steps"
    show "snd (?E ! k) = (?C ^^ k) particles_s_old"
    proof (cases k)
      case 0
      then show ?thesis by simp
    next
      case (Suc j)
      with k have "j < length [1..<Suc (nat steps)]" by simp
      then show ?thesis unfolding Suc by (simp del: upt_Suc funpow.simps)
    qed
  qed
  moreover have "length ?E = nat steps + 1" by simp
  ultimately show ?thesis using main_run [OF assms, of f box_size] by blast
qed

lemma funpow_fixed: "g x = x \<Longrightarrow> (g ^^ k) x = x"
  by (induction k) simp_all

lemma upt_1_6: "[Suc 0..<6] = [1, 2, 3, 4, 5]"
  by (simp add: eval_nat_numeral upt_conv_Cons)

lemma upt_1_3: "[Suc 0..<3] = [1, 2]"
  by (simp add: eval_nat_numeral upt_conv_Cons)

section \<open>The worker without force\<close>

text \<open>
  Under \<open>no_force\<close> the derivative does not look at the ensemble, so the result of a task
  is the result for the ensemble of its own row alone. The results for the rows used in
  the examples are computed once, in binary64 arithmetic.
\<close>

lemma eqnmotion_no_force_sel:
  "eqnmotion no_force s particles idx = State (svx s) (svy s) (Fin 0) (Fin 0)"
  by (cases s) (simp add: eqnmotion_no_force)

lemma result_no_force:
  "idx < length particles \<Longrightarrow>
     result_state (eqnmotion no_force) dt box_size particles idx
       = result_state (eqnmotion no_force) dt box_size [particles ! idx] 0"
  by (simp add: result_state_def compute_particle_def Let_def rk4_step_def
        eqnmotion_no_force_sel cong: option.case_cong prod.case_cong)

lemma rk4_5510:
  "rk4_step (eqnmotion no_force) (State (Fin 5) (Fin 5) (Fin 1) (Fin 0)) [State (Fin 5) (Fin 5) (Fin 1) (Fin 0)]
     0 (Fin 1) = State (Fin 1) (Fin 0) (Fin 0) (Fin 0)"
  unfolding rk4_step_def Let_def by (simp add: run_defs float_eval)

lemma left_box_5510:
  "left_box (simbox (Fin 10)) (State (Fin 5) (Fin 5) (Fin 1) (Fin 0))
     (State (Fin 6) (Fin 5) (Fin 1) (Fin 0)) = None"
  by (simp add: run_defs float_eval)

lemma result_5510:
  "result_state (eqnmotion no_force) (Fin 1) (Fin 10) [State (Fin 5) (Fin 5) (Fin 1) (Fin 0)] 0
     = State (Fin 6) (Fin 5) (Fin 1) (Fin 0)"
  unfolding result_state_def compute_particle_def rk4_step_def Let_def
  by (simp add: run_defs float_eval)

lemma result_2201:
  "result_state (eqnmotion no_force) (Fin 1) (Fin 10) [State (Fin 2) (Fin 2) (Fin 0) (Fin 1)] 0
     = State (Fin 2) (Fin 3) (Fin 0) (Fin 1)"
  unfolding result_state_def compute_particle_def rk4_step_def Let_def
  by (simp add: run_defs float_eval)

lemma result_95500:
  "result_state (eqnmotion no_force) (Fin 1) (Fin 10) [State (Fin 9) (Fin 5) (Fin 50) (Fin 0)] 0
     = State (Fin (- 39)) (Fin 5) (Fin (- 50)) (Fin 0)"
  unfolding result_state_def compute_particle_def rk4_step_def Let_def
  by (simp add: run_defs float_eval)

lemma result_rest:
  "result_state (eqnmotion no_force) (Fin (5404319552844595 / 18014398509481984)) (Fin 10)
     [State (Fin 5) (Fin 5) (Fin 0) (Fin 0)] 0 = State (Fin 5) (Fin 5) (Fin 0) (Fin 0)"
  unfolding result_state_def compute_particle_def rk4_step_def Let_def
  by (simp add: run_defs float_eval)

text \<open>
  A velocity of \<open>2\<^sup>1\<^sup>0\<^sup>2\<^sup>3\<close> with \<open>dt = 4\<close>: the increment overflows. The three facts about
  \<open>v\<close> are those of \<open>2\<^sup>1\<^sup>0\<^sup>2\<^sup>3\<close>; the run is computed for any \<open>v\<close> that has them.
\<close>

lemma overflow_result:
  assumes "round64 v = Fin v" and "round64 (2 * v) = PInf" and "round64 (4 * v) = PInf"
  shows "result_state (eqnmotion no_force) (Fin 4) (Fin 10)
           [State (Fin 5) (Fin 5) (Fin v) (Fin 0)] 0 = State PInf (Fin 5) (Fin v) (Fin 0)"
    and "result_state (eqnmotion no_force) (Fin 4) (Fin 10)
           [State PInf (Fin 5) (Fin v) (Fin 0)] 0 = State PInf (Fin 5) (Fin v) (Fin 0)"
proof -
  have r: "round64 2 = Fin 2" "round64 5 = Fin 5" "round64 (- 5) = Fin (- 5)"
    "round64 (2 / 3) = Fin (6004799503160661 / 9007199254740992)"
    by (simp_all add: float_eval)
  show "result_state (eqnmotion no_force) (Fin 4) (Fin 10)
           [State (Fin 5) (Fin 5) (Fin v) (Fin 0)] 0 = State PInf (Fin 5) (Fin v) (Fin 0)"
    unfolding result_state_def compute_particle_def rk4_step_def Let_def
    by (simp add: run_defs minus_float64_def r assms)
  show "result_state (eqnmotion no_force) (Fin 4) (Fin 10)
           [State PInf (Fin 5) (Fin v) (Fin 0)] 0 = State PInf (Fin 5) (Fin v) (Fin 0)"
    unfolding result_state_def compute_particle_def rk4_step_def Let_def
    by (simp add: run_defs minus_float64_def r assms)
qed

lemma huge:
  "round64 (2 ^ 1023) = Fin (2 ^ 1023)" "round64 (2 * 2 ^ 1023) = PInf"
  "round64 (4 * 2 ^ 1023) = PInf"
proof -
  show "round64 (2 ^ 1023) = Fin (2 ^ 1023)"
    using round64_pow2 [of 1023] by (simp add: pow2_def)
  show "round64 (2 * 2 ^ 1023) = PInf" by (rule round64_overflow) simp
  show "round64 (4 * 2 ^ 1023) = PInf" by (rule round64_overflow) simp
qed

lemma overflow_run:
  assumes "round64 v = Fin v" and "round64 (2 * v) = PInf" and "round64 (4 * v) = PInf"
  shows "main (eqnmotion no_force) (Fin 4) (Fin 4) (Fin 10) 1
           [State (Fin 5) (Fin 5) (Fin v) (Fin 0)] [State (Fin 0) (Fin 0) (Fin 0) (Fin 0)]
         = Inr [(Fin 0, [State (Fin 5) (Fin 5) (Fin v) (Fin 0)]),
                (Fin 4, [State PInf (Fin 5) (Fin v) (Fin 0)])]"
    and "main (eqnmotion no_force) (Fin 4) (Fin 8) (Fin 10) 1
           [State (Fin 5) (Fin 5) (Fin v) (Fin 0)] [State (Fin 0) (Fin 0) (Fin 0) (Fin 0)]
         = Inr [(Fin 0, [State (Fin 5) (Fin 5) (Fin v) (Fin 0)]),
                (Fin 4, [State PInf (Fin 5) (Fin v) (Fin 0)]),
                (Fin 8, [State PInf (Fin 5) (Fin v) (Fin 0)])]"
proof -
  let ?P = "[State (Fin 5) (Fin 5) (Fin v) (Fin 0)]"
  let ?Q = "[State PInf (Fin 5) (Fin v) (Fin 0)]"
  let ?Z = "[State (Fin 0) (Fin 0) (Fin 0) (Fin 0)]"
  let ?C = "committed (eqnmotion no_force) (Fin 4) (Fin 10) 1"
  have c1: "?C ?P = ?Q" by (simp add: committed_def overflow_result(1) [OF assms])
  have c2: "?C ?Q = ?Q" by (simp add: committed_def overflow_result(2) [OF assms])
  have p: "(?C ^^ 1) ?P = ?Q" "(?C ^^ 2) ?P = ?Q"
    using c1 c2 by (simp_all add: numeral_2_eq_2)
  have t: "round64 1 * Fin 4 = Fin 4" "round64 2 * Fin 4 = Fin 8"
    by (simp_all add: float_eval)
  have ts1: "total_steps (Fin 4) (Fin 4) = Inr 1" by (simp add: total_steps_def float_eval)
  have ts2: "total_steps (Fin 8) (Fin 4) = Inr 2" by (simp add: total_steps_def float_eval)
  have n: "[1..<Suc (nat 2)] = [1, 2]" by (simp add: upt_1_3)
  show "main (eqnmotion no_force) (Fin 4) (Fin 4) (Fin 10) 1 ?P ?Z
          = Inr [(Fin 0, ?P), (Fin 4, ?Q)]"
    using main_run [of ?P 1 ?Z "Fin 4" "Fin 4" 1 "eqnmotion no_force" "Fin 10"] ts1 c1
    by (simp add: t)
  show "main (eqnmotion no_force) (Fin 4) (Fin 8) (Fin 10) 1 ?P ?Z
          = Inr [(Fin 0, ?P), (Fin 4, ?Q), (Fin 8, ?Q)]"
    using main_run [of ?P 1 ?Z "Fin 8" "Fin 4" 2 "eqnmotion no_force" "Fin 10"] ts2
    using p unfolding n by (simp add: t)
qed

section \<open>What the crossing test detects\<close>





section \<open>The two embeddings of the worker\<close>

text \<open>
  With collaborators that write nothing, the worker on the store returns what
  \<open>compute_particle\<close> returns, and the store as it was.
\<close>

lemma compute_particle_store_pure:
  "compute_particle_store (rk4_pure f) (left_box_pure box_size) reflect_pure dt idx particles
     = (case compute_particle f dt box_size idx particles of
          Inl e \<Rightarrow> Inl e
        | Inr r \<Rightarrow> Inr (r, particles))"
  by (simp add: compute_particle_store_def compute_particle_def rk4_pure_def left_box_pure_def
        reflect_pure_def Let_def split: option.split prod.split)

section \<open>The reflection law\<close>

text \<open>
  C7. For every state and every wall, \<open>reflect\<close> negates the velocity component normal
  to the wall (\<open>vx\<close> for a vertical wall, \<open>vy\<close> for a horizontal one) and returns the
  tangential velocity component and both position components as they were. Negation of a
  double is exact. \<open>reflect\<close> is the model of the missing \<^verbatim>\<open>box.box.reflect\<close>.
\<close>

theorem reflect_law:
  "reflect s w =
     (if vertical w then State (sx s) (sy s) (- svx s) (svy s)
      else State (sx s) (sy s) (svx s) (- svy s))"
  by (cases s; cases w) (simp_all add: vertical_def)

section \<open>The worker\<close>

text \<open>
  C10. \<^verbatim>\<open>compute_particle\<close> itself never assigns into \<^verbatim>\<open>particles\<close> or into the view
  \<^verbatim>\<open>s_old\<close>; it hands both to \<^verbatim>\<open>rk4_step\<close> and \<^verbatim>\<open>left_box\<close>. On the store: if the three
  collaborators leave the array \<^verbatim>\<open>particles\<close> as they received it, then after every call
  that returns the array is what it was before the call, the row at \<open>idx\<close> included, and
  the index of the returned pair is the index given.
\<close>

theorem compute_particle_frame:
  assumes rk4: "\<And>s i h P. snd (rk4 s i h P) = P"
    and lbox: "\<And>a b P. snd (lbox a b P) = P"
    and rfl: "\<And>s w P. snd (rfl s w P) = P"
    and call: "compute_particle_store rk4 lbox rfl dt idx particles = Inr ((i, s), particles')"
  shows "i = idx \<and> particles' = particles"
proof -
  have r: "\<And>s i h P x y. rk4 s i h P = (x, y) \<Longrightarrow> y = P"
    using rk4 by (metis snd_conv)
  have l: "\<And>a b P x y. lbox a b P = (x, y) \<Longrightarrow> y = P"
    using lbox by (metis snd_conv)
  have f: "\<And>s w P x y. rfl s w P = (x, y) \<Longrightarrow> y = P"
    using rfl by (metis snd_conv)
  from call show ?thesis
    by (auto simp: compute_particle_store_def Let_def
          split: if_splits option.splits prod.splits dest!: r l f)
qed

theorem compute_particle_frame_witness:
  "compute_particle_store (rk4_pure (eqnmotion no_force)) (left_box_pure (Fin 10)) reflect_pure
       (Fin 1) 0 [State (Fin 5) (Fin 5) (Fin 1) (Fin 0)]
     = Inr ((0, State (Fin 6) (Fin 5) (Fin 1) (Fin 0)), [State (Fin 5) (Fin 5) (Fin 1) (Fin 0)])"
proof -
  have len: "(0::nat) < length [State (Fin 5) (Fin 5) (Fin 1) (Fin 0)]"
    by simp
  obtain i s P where
    h: "compute_particle_store (rk4_pure (eqnmotion no_force)) (left_box_pure (Fin 10))
          reflect_pure (Fin 1) 0 [State (Fin 5) (Fin 5) (Fin 1) (Fin 0)] = Inr ((i, s), P)"
    and s: "s = State (Fin 6) (Fin 5) (Fin 1) (Fin 0)"
    using compute_particle_result [OF len, of "eqnmotion no_force" "Fin 1" "Fin 10"]
    by (simp add: compute_particle_store_pure result_5510)
  have "i = 0 \<and> P = [State (Fin 5) (Fin 5) (Fin 1) (Fin 0)]"
    by (rule compute_particle_frame [OF _ _ _ h])
       (simp_all add: rk4_pure_def left_box_pure_def reflect_pure_def)
  with h s show ?thesis by simp
qed

text \<open>
  C4. When \<^verbatim>\<open>left_box\<close> reports no crossing for the full-\<open>dt\<close> candidate, the result is
  the old state plus one RK4 increment for \<open>dt\<close>: no sub-step, no reflection.
\<close>

theorem compute_particle_no_crossing:
  assumes "idx < length particles"
    and "left_box (simbox box_size) (particles ! idx)
           (particles ! idx + rk4_step f (particles ! idx) particles idx dt) = None"
  shows "compute_particle f dt box_size idx particles =
           Inr (idx, particles ! idx + rk4_step f (particles ! idx) particles idx dt)"
  using assms by (simp add: compute_particle_def Let_def)

theorem compute_particle_no_crossing_witness:
  "compute_particle (eqnmotion no_force) (Fin 1) (Fin 10) 0
       [State (Fin 5) (Fin 5) (Fin 1) (Fin 0)]
     = Inr (0, State (Fin 5) (Fin 5) (Fin 1) (Fin 0)
               + rk4_step (eqnmotion no_force) (State (Fin 5) (Fin 5) (Fin 1) (Fin 0))
                   [State (Fin 5) (Fin 5) (Fin 1) (Fin 0)] 0 (Fin 1))
   \<and> State (Fin 5) (Fin 5) (Fin 1) (Fin 0)
       + rk4_step (eqnmotion no_force) (State (Fin 5) (Fin 5) (Fin 1) (Fin 0))
           [State (Fin 5) (Fin 5) (Fin 1) (Fin 0)] 0 (Fin 1)
     = State (Fin 6) (Fin 5) (Fin 1) (Fin 0)"
proof -
  have len: "(0::nat) < length [State (Fin 5) (Fin 5) (Fin 1) (Fin 0)]"
    by simp
  have val: "State (Fin 5) (Fin 5) (Fin 1) (Fin 0)
       + rk4_step (eqnmotion no_force) (State (Fin 5) (Fin 5) (Fin 1) (Fin 0))
           [State (Fin 5) (Fin 5) (Fin 1) (Fin 0)] 0 (Fin 1)
     = State (Fin 6) (Fin 5) (Fin 1) (Fin 0)"
    by (simp add: rk4_5510 float_eval)
  have none: "left_box (simbox (Fin 10)) ([State (Fin 5) (Fin 5) (Fin 1) (Fin 0)] ! 0)
      ([State (Fin 5) (Fin 5) (Fin 1) (Fin 0)] ! 0
       + rk4_step (eqnmotion no_force) ([State (Fin 5) (Fin 5) (Fin 1) (Fin 0)] ! 0)
           [State (Fin 5) (Fin 5) (Fin 1) (Fin 0)] 0 (Fin 1)) = None"
    using val left_box_5510 by simp
  from compute_particle_no_crossing [OF len none] val show ?thesis by simp
qed

text \<open>
  C2. When \<^verbatim>\<open>left_box\<close> reports the crossing \<open>(w, lam)\<close> for the full-\<open>dt\<close> candidate,
  the result is built in three moves: an RK4 increment for \<open>lam * dt\<close> from the old state,
  \<open>reflect\<close> at \<open>w\<close>, an RK4 increment for \<open>(1 - lam) * dt\<close> from the reflected state; every
  increment is evaluated against the unchanged old ensemble. The result is returned as
  it is: \<^verbatim>\<open>left_box\<close> is not asked again. The example is a particle whose remaining
  sub-step passes the opposite wall and whose result lies outside the box.
\<close>

theorem compute_particle_crossing:
  assumes "idx < length particles"
    and "left_box (simbox box_size) (particles ! idx)
           (particles ! idx + rk4_step f (particles ! idx) particles idx dt) = Some (w, lam)"
  shows "compute_particle f dt box_size idx particles =
           Inr (idx,
             reflect (particles ! idx + rk4_step f (particles ! idx) particles idx (lam * dt)) w
             + rk4_step f
                 (reflect (particles ! idx
                           + rk4_step f (particles ! idx) particles idx (lam * dt)) w)
                 particles idx ((Fin 1 - lam) * dt))"
  using assms by (simp add: compute_particle_def Let_def)

theorem compute_particle_crossing_witness:
  "compute_particle (eqnmotion no_force) (Fin 1) (Fin 10) 0
       [State (Fin 9) (Fin 5) (Fin 50) (Fin 0)]
     = Inr (0, State (Fin (- 39)) (Fin 5) (Fin (- 50)) (Fin 0))
   \<and> left_box (simbox (Fin 10)) (State (Fin 10) (Fin 5) (Fin (- 50)) (Fin 0))
       (State (Fin (- 39)) (Fin 5) (Fin (- 50)) (Fin 0)) = Some (WLeft, Fin 10 / Fin 49)"
proof -
  have len: "(0::nat) < length [State (Fin 9) (Fin 5) (Fin 50) (Fin 0)]"
    by simp
  have hit: "left_box (simbox (Fin 10)) ([State (Fin 9) (Fin 5) (Fin 50) (Fin 0)] ! 0)
      ([State (Fin 9) (Fin 5) (Fin 50) (Fin 0)] ! 0
       + rk4_step (eqnmotion no_force) ([State (Fin 9) (Fin 5) (Fin 50) (Fin 0)] ! 0)
           [State (Fin 9) (Fin 5) (Fin 50) (Fin 0)] 0 (Fin 1))
      = Some (WRight, Fin (5764607523034235 / 288230376151711744))"
    unfolding rk4_step_def Let_def by (simp add: run_defs float_eval)
  have again: "left_box (simbox (Fin 10)) (State (Fin 10) (Fin 5) (Fin (- 50)) (Fin 0))
       (State (Fin (- 39)) (Fin 5) (Fin (- 50)) (Fin 0)) = Some (WLeft, Fin 10 / Fin 49)"
    by (simp add: run_defs float_eval)
  have res: "compute_particle (eqnmotion no_force) (Fin 1) (Fin 10) 0
               [State (Fin 9) (Fin 5) (Fin 50) (Fin 0)]
             = Inr (0, State (Fin (- 39)) (Fin 5) (Fin (- 50)) (Fin 0))"
    using compute_particle_result [OF len, of "eqnmotion no_force" "Fin 1" "Fin 10"]
    by (simp add: result_95500)
  from compute_particle_crossing [OF len hit] res again show ?thesis
    by simp
qed

section \<open>The step\<close>

text \<open>
  C3. The tasks of one step may be run and their results unpacked in any order: for every
  list \<open>order\<close> of task indices that covers exactly \<open>0, ..., N - 1\<close> (every permutation of
  \<^verbatim>\<open>range(N)\<close> is one), every task returns, and unpacking the results in that order
  writes the same ensemble as the order of the source does. A task is a function of its
  index and the old ensemble alone, and its result goes to the row of its own index.
  Concurrency is represented by the order in which results arrive.
\<close>

theorem update_order_independent:
  assumes "length particles_s_old = N" and "length particles_s_new = N"
    and "set order = {0..<N}"
  shows "\<exists>results.
           starmap (compute_particle f dt box_size) (map (\<lambda>i. (i, particles_s_old)) order)
             = Inr results
         \<and> unpack results particles_s_new
             = Inr (committed f dt box_size N particles_s_old)
         \<and> step f dt box_size N particles_s_old particles_s_new
             = Inr (committed f dt box_size N particles_s_old, particles_s_old)"
proof -
  have "starmap (compute_particle f dt box_size) (map (\<lambda>i. (i, particles_s_old)) order)
          = Inr (map (\<lambda>i. (i, result_state f dt box_size particles_s_old i)) order)"
    using assms by (intro starmap_compute_particle) simp
  moreover have "unpack (map (\<lambda>i. (i, result_state f dt box_size particles_s_old i)) order)
                   particles_s_new
                 = Inr (committed f dt box_size N particles_s_old)"
    using unpack_all [of order particles_s_new] assms by (simp add: committed_def)
  ultimately show ?thesis using step_commits [OF assms(1,2)] by simp
qed

theorem update_order_independent_witness:
  "set [1, 0] = {0..<2::nat}
   \<and> starmap (compute_particle (eqnmotion no_force) (Fin 1) (Fin 10))
        (map (\<lambda>i. (i, [State (Fin 5) (Fin 5) (Fin 1) (Fin 0), State (Fin 2) (Fin 2) (Fin 0) (Fin 1)]))
           [1, 0])
      = Inr [(1, State (Fin 2) (Fin 3) (Fin 0) (Fin 1)), (0, State (Fin 6) (Fin 5) (Fin 1) (Fin 0))]
   \<and> unpack [(1, State (Fin 2) (Fin 3) (Fin 0) (Fin 1)), (0, State (Fin 6) (Fin 5) (Fin 1) (Fin 0))]
        [State (Fin 0) (Fin 0) (Fin 0) (Fin 0), State (Fin 0) (Fin 0) (Fin 0) (Fin 0)]
      = Inr [State (Fin 6) (Fin 5) (Fin 1) (Fin 0), State (Fin 2) (Fin 3) (Fin 0) (Fin 1)]
   \<and> step (eqnmotion no_force) (Fin 1) (Fin 10) 2
        [State (Fin 5) (Fin 5) (Fin 1) (Fin 0), State (Fin 2) (Fin 2) (Fin 0) (Fin 1)]
        [State (Fin 0) (Fin 0) (Fin 0) (Fin 0), State (Fin 0) (Fin 0) (Fin 0) (Fin 0)]
      = Inr ([State (Fin 6) (Fin 5) (Fin 1) (Fin 0), State (Fin 2) (Fin 3) (Fin 0) (Fin 1)],
             [State (Fin 5) (Fin 5) (Fin 1) (Fin 0), State (Fin 2) (Fin 2) (Fin 0) (Fin 1)])"
proof -
  let ?P = "[State (Fin 5) (Fin 5) (Fin 1) (Fin 0), State (Fin 2) (Fin 2) (Fin 0) (Fin 1)]"
  let ?Z = "[State (Fin 0) (Fin 0) (Fin 0) (Fin 0), State (Fin 0) (Fin 0) (Fin 0) (Fin 0)]"
  have s: "set [1, 0] = {0..<2::nat}" by auto
  have c: "committed (eqnmotion no_force) (Fin 1) (Fin 10) 2 ?P
             = [State (Fin 6) (Fin 5) (Fin 1) (Fin 0), State (Fin 2) (Fin 3) (Fin 0) (Fin 1)]"
    by (simp add: committed_def upt_0_2 result_no_force result_5510 result_2201)
  have r: "starmap (compute_particle (eqnmotion no_force) (Fin 1) (Fin 10))
             (map (\<lambda>i. (i, ?P)) [1, 0])
           = Inr [(1, State (Fin 2) (Fin 3) (Fin 0) (Fin 1)),
                  (0, State (Fin 6) (Fin 5) (Fin 1) (Fin 0))]"
    by (simp add: compute_particle_result result_no_force result_5510 result_2201)
  from update_order_independent [of ?P 2 ?Z "[1, 0]" "eqnmotion no_force" "Fin 1" "Fin 10"]
    s c r show ?thesis by simp
qed

text \<open>
  C6. A step produces one result for each index below \<open>N\<close>, writes it to the row of that
  index and only then swaps: the committed ensemble has \<open>N\<close> rows, row \<open>i\<close> being the
  result of task \<open>i\<close>, and the old ensemble becomes the write buffer. Every ensemble that
  the run emits has \<open>N\<close> rows.
\<close>

theorem ensemble_size:
  assumes "length particles_s_old = N" and "length particles_s_new = N"
  shows "(\<exists>new. step f dt box_size N particles_s_old particles_s_new = Inr (new, particles_s_old)
            \<and> length new = N
            \<and> (\<forall>i<N. compute_particle f dt box_size i particles_s_old = Inr (i, new ! i)))
       \<and> (\<forall>emitted. main f dt t_max box_size N particles_s_old particles_s_new = Inr emitted
            \<longrightarrow> (\<forall>e\<in>set emitted. length (snd e) = N))"
proof (intro conjI allI impI)
  have "\<forall>i<N. compute_particle f dt box_size i particles_s_old
                = Inr (i, committed f dt box_size N particles_s_old ! i)"
    using assms(1) by (simp add: committed_def compute_particle_result)
  then show "\<exists>new. step f dt box_size N particles_s_old particles_s_new
                      = Inr (new, particles_s_old)
                \<and> length new = N
                \<and> (\<forall>i<N. compute_particle f dt box_size i particles_s_old = Inr (i, new ! i))"
    using step_commits [OF assms, of f dt box_size] by auto
next
  fix emitted
  assume run: "main f dt t_max box_size N particles_s_old particles_s_new = Inr emitted"
  then obtain steps where ts: "total_steps t_max dt = Inr steps"
    by (cases "total_steps t_max dt") (simp_all add: main_def)
  from run main_run [OF assms ts, of f box_size]
  have "emitted = (Fin 0, particles_s_old)
          # map (\<lambda>k. (round64 (real k) * dt, (committed f dt box_size N ^^ k) particles_s_old))
              [1..<Suc (nat steps)]"
    by simp
  then show "\<forall>e\<in>set emitted. length (snd e) = N"
    using assms(1) by (auto simp: length_funpow_committed simp del: upt_Suc)
qed

theorem ensemble_size_witness:
  "step (eqnmotion no_force) (Fin 1) (Fin 10) 2
       [State (Fin 5) (Fin 5) (Fin 1) (Fin 0), State (Fin 2) (Fin 2) (Fin 0) (Fin 1)]
       [State (Fin 0) (Fin 0) (Fin 0) (Fin 0), State (Fin 0) (Fin 0) (Fin 0) (Fin 0)]
     = Inr ([State (Fin 6) (Fin 5) (Fin 1) (Fin 0), State (Fin 2) (Fin 3) (Fin 0) (Fin 1)],
            [State (Fin 5) (Fin 5) (Fin 1) (Fin 0), State (Fin 2) (Fin 2) (Fin 0) (Fin 1)])
   \<and> main (eqnmotion no_force) (Fin 1) (Fin 1) (Fin 10) 2
       [State (Fin 5) (Fin 5) (Fin 1) (Fin 0), State (Fin 2) (Fin 2) (Fin 0) (Fin 1)]
       [State (Fin 0) (Fin 0) (Fin 0) (Fin 0), State (Fin 0) (Fin 0) (Fin 0) (Fin 0)]
     = Inr [(Fin 0, [State (Fin 5) (Fin 5) (Fin 1) (Fin 0), State (Fin 2) (Fin 2) (Fin 0) (Fin 1)]),
            (Fin 1, [State (Fin 6) (Fin 5) (Fin 1) (Fin 0), State (Fin 2) (Fin 3) (Fin 0) (Fin 1)])]
   \<and> length [State (Fin 6) (Fin 5) (Fin 1) (Fin 0), State (Fin 2) (Fin 3) (Fin 0) (Fin 1)] = 2"
proof -
  let ?P = "[State (Fin 5) (Fin 5) (Fin 1) (Fin 0), State (Fin 2) (Fin 2) (Fin 0) (Fin 1)]"
  let ?Z = "[State (Fin 0) (Fin 0) (Fin 0) (Fin 0), State (Fin 0) (Fin 0) (Fin 0) (Fin 0)]"
  let ?C = "[State (Fin 6) (Fin 5) (Fin 1) (Fin 0), State (Fin 2) (Fin 3) (Fin 0) (Fin 1)]"
  have c: "committed (eqnmotion no_force) (Fin 1) (Fin 10) 2 ?P = ?C"
    by (simp add: committed_def upt_0_2 result_no_force result_5510 result_2201)
  have s: "step (eqnmotion no_force) (Fin 1) (Fin 10) 2 ?P ?Z = Inr (?C, ?P)"
    using step_commits [of ?P 2 ?Z "eqnmotion no_force" "Fin 1" "Fin 10"] c by simp
  have m: "main (eqnmotion no_force) (Fin 1) (Fin 1) (Fin 10) 2 ?P ?Z
             = Inr [(Fin 0, ?P), (Fin 1, ?C)]"
    using main_one_step [of ?P 2 ?Z "eqnmotion no_force" "Fin 10"] c by simp
  from ensemble_size [of ?P 2 ?Z "eqnmotion no_force" "Fin 1" "Fin 10" "Fin 1"] m
  have "length ?C = 2" by simp
  with s m show ?thesis by simp
qed

text \<open>
  C9. What the write buffer holds at the start does not matter: two runs that differ only
  in the initial contents of \<^verbatim>\<open>particles_s_new\<close> emit the same sequence, and a step
  commits the same ensemble whatever the write buffer held.
\<close>

theorem write_buffer_irrelevant:
  assumes "length particles_s_old = N" and "length buffer = N" and "length buffer' = N"
  shows "main f dt t_max box_size N particles_s_old buffer
           = main f dt t_max box_size N particles_s_old buffer'
       \<and> step f dt box_size N particles_s_old buffer
           = step f dt box_size N particles_s_old buffer'"
proof
  show "main f dt t_max box_size N particles_s_old buffer
          = main f dt t_max box_size N particles_s_old buffer'"
  proof (cases "total_steps t_max dt")
    case (Inl e)
    then show ?thesis by (simp add: main_def)
  next
    case (Inr steps)
    show ?thesis
      unfolding main_run [OF assms(1,2) Inr] main_run [OF assms(1,3) Inr] ..
  qed
  show "step f dt box_size N particles_s_old buffer
          = step f dt box_size N particles_s_old buffer'"
    unfolding step_commits [OF assms(1,2)] step_commits [OF assms(1,3)] ..
qed

theorem write_buffer_irrelevant_witness:
  "main (eqnmotion no_force) (Fin 1) (Fin 2) (Fin 10) 1
       [State (Fin 5) (Fin 5) (Fin 1) (Fin 0)] [State (Fin 0) (Fin 0) (Fin 0) (Fin 0)]
     = main (eqnmotion no_force) (Fin 1) (Fin 2) (Fin 10) 1
         [State (Fin 5) (Fin 5) (Fin 1) (Fin 0)] [State (Fin 1) (Fin 2) NaN PInf]
   \<and> step (eqnmotion no_force) (Fin 1) (Fin 10) 1
       [State (Fin 5) (Fin 5) (Fin 1) (Fin 0)] [State (Fin 0) (Fin 0) (Fin 0) (Fin 0)]
     = step (eqnmotion no_force) (Fin 1) (Fin 10) 1
         [State (Fin 5) (Fin 5) (Fin 1) (Fin 0)] [State (Fin 1) (Fin 2) NaN PInf]"
  using write_buffer_irrelevant [of "[State (Fin 5) (Fin 5) (Fin 1) (Fin 0)]" 1
      "[State (Fin 0) (Fin 0) (Fin 0) (Fin 0)]" "[State (Fin 1) (Fin 2) NaN PInf]"
      "eqnmotion no_force" "Fin 1" "Fin 2" "Fin 10"]
  by simp

section \<open>The run\<close>

text \<open>
  C5. The number of steps is the ceiling of the double \<^verbatim>\<open>t_max / dt\<close>, the quotient as the
  division of doubles returns it. For a \<open>dt\<close> other than zero and a finite quotient \<open>q\<close>
  the run makes \<open>\<lceil>q\<rceil>\<close> steps and emits \<open>\<lceil>q\<rceil> + 1\<close> pairs in order: the initial ensemble at
  time \<open>0\<close>, then for each \<open>k\<close> from \<open>1\<close> to \<open>\<lceil>q\<rceil>\<close> the ensemble committed by step \<open>k\<close> at
  the time \<^verbatim>\<open>k * dt\<close>, a product of doubles. In the example \<open>t_max = 1.5\<close> and \<open>dt\<close> is
  the double nearest to \<open>0.3\<close>, which is below \<open>0.3\<close>: the exact quotient is above \<open>5\<close>,
  the double quotient is \<open>5\<close>, and the run makes five steps.
\<close>

theorem main_emits:
  assumes "length particles_s_old = N" and "length particles_s_new = N"
    and "dt \<noteq> Fin 0" and "t_max / dt = Fin q"
  shows "total_steps t_max dt = Inr \<lceil>q\<rceil>
       \<and> main f dt t_max box_size N particles_s_old particles_s_new
           = Inr ((Fin 0, particles_s_old)
                  # map (\<lambda>k. (round64 (real k) * dt,
                                (committed f dt box_size N ^^ k) particles_s_old))
                      [1..<Suc (nat \<lceil>q\<rceil>)])"
proof -
  have ts: "total_steps t_max dt = Inr \<lceil>q\<rceil>"
    using assms(3,4) by (simp add: total_steps_def)
  from ts main_run [OF assms(1,2) ts] show ?thesis by simp
qed

theorem main_emits_witness:
  "Fin (3 / 2) / Fin (5404319552844595 / 18014398509481984) = Fin 5
   \<and> main (eqnmotion no_force) (Fin (5404319552844595 / 18014398509481984)) (Fin (3 / 2))
       (Fin 10) 1 [State (Fin 5) (Fin 5) (Fin 0) (Fin 0)] [State (Fin 0) (Fin 0) (Fin 0) (Fin 0)]
     = Inr [(Fin 0, [State (Fin 5) (Fin 5) (Fin 0) (Fin 0)]),
            (Fin (5404319552844595 / 18014398509481984), [State (Fin 5) (Fin 5) (Fin 0) (Fin 0)]),
            (Fin (5404319552844595 / 9007199254740992), [State (Fin 5) (Fin 5) (Fin 0) (Fin 0)]),
            (Fin (2026619832316723 / 2251799813685248), [State (Fin 5) (Fin 5) (Fin 0) (Fin 0)]),
            (Fin (5404319552844595 / 4503599627370496), [State (Fin 5) (Fin 5) (Fin 0) (Fin 0)]),
            (Fin (3 / 2), [State (Fin 5) (Fin 5) (Fin 0) (Fin 0)])]"
proof -
  let ?dt = "Fin (5404319552844595 / 18014398509481984)"
  let ?P = "[State (Fin 5) (Fin 5) (Fin 0) (Fin 0)]"
  let ?C = "committed (eqnmotion no_force) ?dt (Fin 10) 1"
  have q: "Fin (3 / 2) / ?dt = Fin 5"
    by (simp add: float_eval)
  have "?C ?P = ?P"
    by (simp add: committed_def result_rest)
  then have fixed: "\<And>k. (?C ^^ k) ?P = ?P"
    by (rule funpow_fixed)
  have t: "round64 1 * ?dt = Fin (5404319552844595 / 18014398509481984)"
    "round64 2 * ?dt = Fin (5404319552844595 / 9007199254740992)"
    "round64 3 * ?dt = Fin (2026619832316723 / 2251799813685248)"
    "round64 4 * ?dt = Fin (5404319552844595 / 4503599627370496)"
    "round64 5 * ?dt = Fin (3 / 2)"
    by (simp_all add: float_eval)
  have n: "[1..<Suc (nat \<lceil>5::real\<rceil>)] = [1, 2, 3, 4, 5]"
    by (simp add: upt_1_6)
  from main_emits [of ?P 1 "[State (Fin 0) (Fin 0) (Fin 0) (Fin 0)]" ?dt "Fin (3 / 2)" 5
      "eqnmotion no_force" "Fin 10"] q
  have "main (eqnmotion no_force) ?dt (Fin (3 / 2)) (Fin 10) 1 ?P
          [State (Fin 0) (Fin 0) (Fin 0) (Fin 0)]
        = Inr ((Fin 0, ?P) # map (\<lambda>k. (round64 (real k) * ?dt, (?C ^^ k) ?P))
                               [1..<Suc (nat \<lceil>5::real\<rceil>)])"
    by simp
  with q show ?thesis
    unfolding n fixed by (simp add: t)
qed

text \<open>
  C8, as the code has it. Neither the worker nor the loop tests a value for finiteness.
  Once \<^verbatim>\<open>total_steps\<close> is computed, the run with buffers of \<open>N\<close> rows returns after all its
  steps and emits one pair more than it makes steps; the state that task \<open>i\<close> returns in
  step \<open>k + 1\<close> is row \<open>i\<close> of the next emitted ensemble, whatever its values: a state that
  is not finite is committed and emitted as it is, and the loop goes on. In the example
  the position overflows in the first step, and the second step is made from the
  infinite state.
\<close>

theorem non_finite_committed:
  assumes "length particles_s_old = N" and "length particles_s_new = N"
    and "total_steps t_max dt = Inr steps"
  shows "\<exists>emitted. main f dt t_max box_size N particles_s_old particles_s_new = Inr emitted
           \<and> length emitted = nat steps + 1
           \<and> (\<forall>k<nat steps. \<forall>i<N.
                 compute_particle f dt box_size i (snd (emitted ! k))
                   = Inr (i, snd (emitted ! Suc k) ! i)
                 \<and> (\<not> finite_state (result_state f dt box_size (snd (emitted ! k)) i)
                      \<longrightarrow> \<not> finite_state (snd (emitted ! Suc k) ! i)))"
proof -
  let ?C = "committed f dt box_size N"
  from run_rows [OF assms, of f box_size] obtain emitted where
    m: "main f dt t_max box_size N particles_s_old particles_s_new = Inr emitted"
    and l: "length emitted = nat steps + 1"
    and r: "\<forall>k\<le>nat steps. snd (emitted ! k) = (?C ^^ k) particles_s_old"
    by blast
  have "\<forall>k<nat steps. \<forall>i<N.
          compute_particle f dt box_size i (snd (emitted ! k))
            = Inr (i, snd (emitted ! Suc k) ! i)
          \<and> (\<not> finite_state (result_state f dt box_size (snd (emitted ! k)) i)
               \<longrightarrow> \<not> finite_state (snd (emitted ! Suc k) ! i))"
  proof (intro allI impI)
    fix k i assume k: "k < nat steps" and i: "i < N"
    let ?P = "(?C ^^ k) particles_s_old"
    have len: "length ?P = N" using assms(1) by (rule length_funpow_committed)
    have a: "snd (emitted ! k) = ?P" using r k by simp
    have "snd (emitted ! Suc k) = ?C ?P" using r k by simp
    then have b: "snd (emitted ! Suc k) ! i = result_state f dt box_size ?P i"
      using i by (simp add: committed_def)
    show "compute_particle f dt box_size i (snd (emitted ! k))
            = Inr (i, snd (emitted ! Suc k) ! i)
          \<and> (\<not> finite_state (result_state f dt box_size (snd (emitted ! k)) i)
               \<longrightarrow> \<not> finite_state (snd (emitted ! Suc k) ! i))"
      unfolding a b using compute_particle_result [of i ?P f dt box_size] i len by simp
  qed
  with m l show ?thesis by blast
qed

theorem non_finite_committed_witness:
  "main (eqnmotion no_force) (Fin 4) (Fin 8) (Fin 10) 1
       [State (Fin 5) (Fin 5) (Fin (2 ^ 1023)) (Fin 0)] [State (Fin 0) (Fin 0) (Fin 0) (Fin 0)]
     = Inr [(Fin 0, [State (Fin 5) (Fin 5) (Fin (2 ^ 1023)) (Fin 0)]),
            (Fin 4, [State PInf (Fin 5) (Fin (2 ^ 1023)) (Fin 0)]),
            (Fin 8, [State PInf (Fin 5) (Fin (2 ^ 1023)) (Fin 0)])]
   \<and> compute_particle (eqnmotion no_force) (Fin 4) (Fin 10) 0
       [State (Fin 5) (Fin 5) (Fin (2 ^ 1023)) (Fin 0)]
     = Inr (0, State PInf (Fin 5) (Fin (2 ^ 1023)) (Fin 0))
   \<and> \<not> finite_state (State PInf (Fin 5) (Fin (2 ^ 1023)) (Fin 0))"
proof -
  let ?P = "[State (Fin 5) (Fin 5) (Fin (2 ^ 1023)) (Fin 0)]"
  let ?Z = "[State (Fin 0) (Fin 0) (Fin 0) (Fin 0)]"
  have ts: "total_steps (Fin 8) (Fin 4) = Inr 2" by (simp add: total_steps_def float_eval)
  note m = overflow_run(2) [OF huge]
  from non_finite_committed [of ?P 1 ?Z "Fin 8" "Fin 4" 2 "eqnmotion no_force" "Fin 10"] ts
  obtain emitted where
    e: "main (eqnmotion no_force) (Fin 4) (Fin 8) (Fin 10) 1 ?P ?Z = Inr emitted"
    and r: "\<forall>k<nat 2. \<forall>i<1.
              compute_particle (eqnmotion no_force) (Fin 4) (Fin 10) i (snd (emitted ! k))
                = Inr (i, snd (emitted ! Suc k) ! i)
              \<and> (\<not> finite_state (result_state (eqnmotion no_force) (Fin 4) (Fin 10)
                                     (snd (emitted ! k)) i)
                   \<longrightarrow> \<not> finite_state (snd (emitted ! Suc k) ! i))"
    by auto
  from e m have em: "emitted = [(Fin 0, ?P),
      (Fin 4, [State PInf (Fin 5) (Fin (2 ^ 1023)) (Fin 0)]),
      (Fin 8, [State PInf (Fin 5) (Fin (2 ^ 1023)) (Fin 0)])]"
    by simp
  from r have "compute_particle (eqnmotion no_force) (Fin 4) (Fin 10) 0 (snd (emitted ! 0))
                 = Inr (0, snd (emitted ! Suc 0) ! 0)"
    by simp
  then have "compute_particle (eqnmotion no_force) (Fin 4) (Fin 10) 0 ?P
               = Inr (0, State PInf (Fin 5) (Fin (2 ^ 1023)) (Fin 0))"
    unfolding em by simp
  with m show ?thesis by (simp add: finite_state_def)
qed

text \<open>
  C8 fails on a particle of velocity \<open>2\<^sup>1\<^sup>0\<^sup>2\<^sup>3\<close> under no force with \<open>dt = 4\<close>: the state it
  starts from is finite and inside the box, the position of the resulting state is
  infinite, and the run returns normally with that state emitted.
\<close>

theorem divergence_not_fatal:
  "main (eqnmotion no_force) (Fin 4) (Fin 4) (Fin 10) 1
       [State (Fin 5) (Fin 5) (Fin (2 ^ 1023)) (Fin 0)] [State (Fin 0) (Fin 0) (Fin 0) (Fin 0)]
     = Inr [(Fin 0, [State (Fin 5) (Fin 5) (Fin (2 ^ 1023)) (Fin 0)]),
            (Fin 4, [State PInf (Fin 5) (Fin (2 ^ 1023)) (Fin 0)])]
   \<and> finite_state (State (Fin 5) (Fin 5) (Fin (2 ^ 1023)) (Fin 0))
   \<and> in_box (Fin 10) (State (Fin 5) (Fin 5) (Fin (2 ^ 1023)) (Fin 0))
   \<and> \<not> finite_state (State PInf (Fin 5) (Fin (2 ^ 1023)) (Fin 0))"
  using overflow_run(1) [OF huge] by (simp add: finite_state_def in_box_def)

section \<open>The position invariant\<close>




end
